theory Spec2Isabelle
  imports Complex_Main
begin

unbundle bit_operations_syntax

section \<open>Conventions of the embedding\<close>

text \<open>
  The pipeline is Python over numpy arrays. Python and numpy floats are idealised as
  \<^typ>\<open>real\<close>: arithmetic is exact, and there is no NaN and no infinity. The concrete
  inputs on which the code is shown to differ from the specification are chosen so that
  the values that decide them (63.75 against 64, a height of exactly 0, 19 points against
  20) are computed without rounding by the floats as well.
  A numpy 2-D array is a list of rows; a Python dict is an association list in insertion
  order, the order in which \<open>items()\<close> visits it; sector names are strings; an exception
  is a value of \<open>py_error\<close>.
\<close>

datatype py_error =
    Exception string
  | ValueError
  | IndexError
  | KeyError string

type_synonym point = "real \<times> real \<times> real"

record obstacle =
  centroid :: point
  points :: "point list"

record command =
  motor_id :: nat
  intensity :: int

section \<open>camera/utils/config.py\<close>

definition FRAME_WIDTH :: nat where "FRAME_WIDTH = 640"
definition FRAME_HEIGHT :: nat where "FRAME_HEIGHT = 480"
definition FOCAL_LENGTH :: real where "FOCAL_LENGTH = 525"
definition GROUND_HEIGHT_THRESHOLD :: real where "GROUND_HEIGHT_THRESHOLD = 12 / 10"
definition WARNING_DISTANCE :: real where "WARNING_DISTANCE = 2"
definition SIMULATION_ENABLED :: bool where "SIMULATION_ENABLED = True"

section \<open>Python built-ins used by the pipeline\<close>

text \<open>\<open>int(x)\<close> on a float truncates toward zero.\<close>

definition py_int :: "real \<Rightarrow> int" where
  "py_int x = (if 0 \<le> x then \<lfloor>x\<rfloor> else \<lceil>x\<rceil>)"

text \<open>Truth value of \<open>None\<close> or a float: \<open>None\<close> and \<open>0.0\<close> are false.\<close>

fun py_truthy :: "real option \<Rightarrow> bool" where
  "py_truthy None = False"
| "py_truthy (Some d) = (d \<noteq> 0)"

text \<open>
  \<open>min(xs) if xs else None\<close>: \<open>min\<close> is called on a non-empty list only, and keeps the first
  smallest element.
\<close>

fun min_or_none :: "real list \<Rightarrow> real option" where
  "min_or_none [] = None"
| "min_or_none (x # xs) = Some (fold (\<lambda>y m. if y < m then y else m) xs x)"

text \<open>\<open>np.arctan2(y, x)\<close> on finite arguments (signed zeros identified).\<close>

definition arctan2 :: "real \<Rightarrow> real \<Rightarrow> real" where
  "arctan2 y x =
     (if 0 < x then arctan (y / x)
      else if x < 0 then (if 0 \<le> y then arctan (y / x) + pi else arctan (y / x) - pi)
      else if 0 < y then pi / 2
      else if y < 0 then - (pi / 2)
      else 0)"

section \<open>camera/utils/helpers.py\<close>

text \<open>The angle of line 10, in degrees.\<close>

definition angle_of :: "real \<Rightarrow> real" where
  "angle_of u = arctan2 (u - real FRAME_WIDTH / 2) FOCAL_LENGTH * 180 / pi"

text \<open>\<open>sectors[k].append(z)\<close> on the dict of lists.\<close>

definition sector_append :: "string \<Rightarrow> real \<Rightarrow> (string \<times> real list) list \<Rightarrow> (string \<times> real list) list" where
  "sector_append k z sectors = map (\<lambda>(s, zs). if s = k then (s, zs @ [z]) else (s, zs)) sectors"

text \<open>The body of the loop of lines 7 to 16, for one obstacle.\<close>

definition assign_obstacle :: "obstacle \<Rightarrow> (string \<times> real list) list \<Rightarrow> (string \<times> real list) list" where
  "assign_obstacle obs sectors =
     (case centroid obs of (u, _, z) \<Rightarrow>
        let angle = angle_of u in
        if - 15 \<le> angle \<and> angle \<le> 15 then sector_append ''N'' z sectors
        else if 15 < angle \<and> angle \<le> 45 then sector_append ''NE'' z sectors
        else if - 45 \<le> angle \<and> angle < - 15 then sector_append ''NW'' z sectors
        else sectors)"

definition map_obstacles_to_sectors :: "obstacle list \<Rightarrow> (string \<times> real option) list" where
  "map_obstacles_to_sectors obstacles =
     (let sectors = fold assign_obstacle obstacles [(''N'', []), (''NE'', []), (''NW'', [])]
      in map (\<lambda>(sector, distances). (sector, min_or_none distances)) sectors)"

section \<open>haptic_feedback/belt_control.py\<close>

definition motor_map :: "string \<rightharpoonup> nat" where
  "motor_map = [''N'' \<mapsto> 0, ''NE'' \<mapsto> 1, ''NW'' \<mapsto> 2]"

text \<open>Lines 13 and 14: the intensity for a distance, against a warning distance.\<close>

definition intensity_of :: "real \<Rightarrow> real \<Rightarrow> int" where
  "intensity_of warning distance = max 0 (min 255 (py_int (255 * (1 - distance / warning))))"

text \<open>
  The loop over \<open>sectors.items()\<close>. The serial port is the list of commands written so far;
  the line written is the decimal rendering \<open>motor_id,intensity\<close> of the command. A failed
  lookup in \<open>motor_map\<close> raises \<open>KeyError\<close> after the earlier writes have been made.
\<close>

fun trigger_haptic_feedback ::
  "(string \<times> real option) list \<Rightarrow> command list \<Rightarrow> py_error option \<times> command list" where
  "trigger_haptic_feedback [] ser = (None, ser)"
| "trigger_haptic_feedback ((sector, distance) # rest) ser =
     (if py_truthy distance \<and> the distance < WARNING_DISTANCE then
        (case motor_map sector of
           None \<Rightarrow> (Some (KeyError sector), ser)
         | Some m \<Rightarrow>
             trigger_haptic_feedback rest
               (ser @ [\<lparr>motor_id = m, intensity = intensity_of WARNING_DISTANCE (the distance)\<rparr>]))
      else trigger_haptic_feedback rest ser)"

section \<open>obstacle_detection/ground_plane.py\<close>

text \<open>
  \<open>a.shape\<close> of a 2-D array held as a list of rows, and the arrays that are rectangular.
\<close>

definition shape :: "'a list list \<Rightarrow> nat \<times> nat" where
  "shape a = (length a, if a = [] then 0 else length (hd a))"

definition rect :: "'a list list \<Rightarrow> bool" where
  "rect a = list_all (\<lambda>row. length row = snd (shape a)) a"

text \<open>
  The classification of the pixel in row \<open>v\<close> and column \<open>u\<close> that holds depth \<open>z\<close>, lines 9
  to 16. Line 10 computes \<open>x\<close> and never reads it.
\<close>

definition pixel_height :: "nat \<Rightarrow> nat \<Rightarrow> real \<Rightarrow> real" where
  "pixel_height height v z =
     (let y = (real v - real height / 2) * z / FOCAL_LENGTH
      in - y - GROUND_HEIGHT_THRESHOLD)"

definition estimate_ground_plane :: "real list list \<Rightarrow> bool list list" where
  "estimate_ground_plane depth_map =
     (case shape depth_map of (height, width) \<Rightarrow>
        map (\<lambda>v. map (\<lambda>u. \<bar>pixel_height height v (depth_map ! v ! u)\<bar> < 1 / 10) [0..<width])
          [0..<height])"

section \<open>obstacle_detection/segmentation.py\<close>

subsection \<open>numpy indexing\<close>

text \<open>\<open>np.where(m)\<close> on a 2-D boolean array: the (row, column) pairs of the true cells, row-major.\<close>

definition np_where :: "bool list list \<Rightarrow> (nat \<times> nat) list" where
  "np_where m =
     concat (map (\<lambda>v. map (\<lambda>u. (v, u)) (filter (\<lambda>u. m ! v ! u) [0..<length (m ! v)]))
       [0..<length m])"

text \<open>
  \<open>a[m]\<close> with a boolean array \<open>m\<close>: the cells of \<open>a\<close> where \<open>m\<close> is true, row-major;
  numpy raises \<open>IndexError\<close> when the shapes differ.
\<close>

definition mask_index :: "real list list \<Rightarrow> bool list list \<Rightarrow> py_error + real list" where
  "mask_index a m =
     (if shape m \<noteq> shape a then Inl IndexError
      else Inr (map (\<lambda>(v, u). a ! v ! u) (np_where m)))"

subsection \<open>scikit-learn's DBSCAN\<close>

text \<open>
  \<open>DBSCAN(eps, min_samples).fit(X).labels_\<close> of scikit-learn, which the repository calls and
  does not contain. The model follows the library: input validation refuses an array of zero
  samples with \<open>ValueError\<close>; the neighbourhood of a sample holds every sample within
  Euclidean distance \<open>eps\<close> of it, itself included; a sample is a core sample when its
  neighbourhood has at least \<open>min_samples\<close> members; labels start at \<open>-1\<close> and the labelling
  loop below is the library's \<open>dbscan_inner\<close>.
\<close>

definition sqdist :: "point \<Rightarrow> point \<Rightarrow> real" where
  "sqdist p q =
     (case p of (a, b, c) \<Rightarrow> case q of (d, e, f) \<Rightarrow> (a - d)\<^sup>2 + (b - e)\<^sup>2 + (c - f)\<^sup>2)"

text \<open>Distance at most \<open>eps\<close>, compared on the squares (the same for \<open>eps\<close> not negative).\<close>

definition in_radius :: "real \<Rightarrow> point \<Rightarrow> point \<Rightarrow> bool" where
  "in_radius eps p q = (sqdist p q \<le> eps\<^sup>2)"

definition neighborhoods_of :: "real \<Rightarrow> point list \<Rightarrow> nat list list" where
  "neighborhoods_of eps X =
     map (\<lambda>i. filter (\<lambda>j. in_radius eps (X ! i) (X ! j)) [0..<length X]) [0..<length X]"

text \<open>
  The depth-first search of \<open>dbscan_inner\<close> from sample \<open>i\<close> with the stack \<open>stack\<close> (top
  first): an unlabelled sample takes the label, and if it is a core sample its unlabelled
  neighbours are pushed; then the next sample is popped, until the stack is empty. A sample
  that already has a label keeps it. The samples on the stack come from the neighbourhoods
  and are indices of \<open>labels\<close>; the test \<open>i < length labels\<close> is there for the termination
  proof only.
\<close>

function expand ::
  "bool list \<Rightarrow> nat list list \<Rightarrow> nat \<Rightarrow> nat \<Rightarrow> nat list \<Rightarrow> int list \<Rightarrow> int list" where
  "expand is_core neighborhoods label_num i stack labels =
     (if i < length labels \<and> labels ! i = - 1 then
        (case (if is_core ! i
               then rev (filter (\<lambda>v. (labels[i := int label_num]) ! v = - 1) (neighborhoods ! i)) @ stack
               else stack) of
           [] \<Rightarrow> labels[i := int label_num]
         | j # rest \<Rightarrow> expand is_core neighborhoods label_num j rest (labels[i := int label_num]))
      else
        (case stack of
           [] \<Rightarrow> labels
         | j # rest \<Rightarrow> expand is_core neighborhoods label_num j rest labels))"
  by pat_completeness auto

lemma unlabelled_update:
  "i < length labels \<Longrightarrow> labels ! i = - 1 \<Longrightarrow>
   length (filter (\<lambda>x. x = - 1) (labels[i := int k])) < length (filter (\<lambda>x. x = - 1) labels)"
proof (induction labels arbitrary: i)
  case Nil
  then show ?case by simp
next
  case (Cons a labels)
  show ?case
  proof (cases i)
    case 0
    with Cons.prems show ?thesis by simp
  next
    case (Suc n)
    with Cons.prems have "n < length labels" "labels ! n = - 1" by simp_all
    from Cons.IH[OF this] Suc show ?thesis by simp
  qed
qed

termination expand
  apply (relation "measures [\<lambda>(c, n, l, i, st, labs). length (filter (\<lambda>x. x = - 1) labs),
                             \<lambda>(c, n, l, i, st, labs). length st]")
    apply (auto simp: unlabelled_update)
  done

declare expand.simps [simp del]

text \<open>
  The outer loop of \<open>dbscan_inner\<close>: every core sample that is still unlabelled starts a new
  cluster, which is searched to the end before the next sample is looked at.
\<close>

definition dbscan_step ::
  "bool list \<Rightarrow> nat list list \<Rightarrow> nat \<Rightarrow> int list \<times> nat \<Rightarrow> int list \<times> nat" where
  "dbscan_step is_core neighborhoods i st =
     (case st of (labels, label_num) \<Rightarrow>
        if labels ! i \<noteq> - 1 \<or> \<not> is_core ! i then (labels, label_num)
        else (expand is_core neighborhoods label_num i [] labels, label_num + 1))"

definition dbscan_inner :: "bool list \<Rightarrow> nat list list \<Rightarrow> int list \<Rightarrow> int list" where
  "dbscan_inner is_core neighborhoods labels =
     fst (fold (dbscan_step is_core neighborhoods) [0..<length labels] (labels, 0))"

definition dbscan_fit :: "real \<Rightarrow> nat \<Rightarrow> point list \<Rightarrow> py_error + int list" where
  "dbscan_fit eps min_samples X =
     (if X = [] then Inl ValueError
      else
        let neighborhoods = neighborhoods_of eps X;
            core_samples = map (\<lambda>nb. min_samples \<le> length nb) neighborhoods
        in Inr (dbscan_inner core_samples neighborhoods (replicate (length X) (- 1))))"

subsection \<open>segment_obstacles\<close>

text \<open>\<open>np.mean(cluster_points, axis=0)\<close>.\<close>

definition mean_point :: "point list \<Rightarrow> point" where
  "mean_point ps =
     (sum_list (map fst ps) / real (length ps),
      sum_list (map (fst \<circ> snd) ps) / real (length ps),
      sum_list (map (snd \<circ> snd) ps) / real (length ps))"

text \<open>Lines 7 to 11: the point cloud \<open>(u, v, z)\<close> of the pixels that are not ground.\<close>

definition non_ground_points :: "real list list \<Rightarrow> bool list list \<Rightarrow> py_error + point list" where
  "non_ground_points depth_map ground_mask =
     (let non_ground = map (map Not) ground_mask in
      case mask_index depth_map non_ground of
        Inl e \<Rightarrow> Inl e
      | Inr z \<Rightarrow> Inr (map (\<lambda>((v, u), z). (real u, real v, z)) (zip (np_where non_ground) z)))"

text \<open>
  Lines 16 to 21. Iterating the set of small non-negative integer labels visits them in
  increasing order.
\<close>

definition unique_labels :: "int list \<Rightarrow> int list" where
  "unique_labels labels = sort (remdups (filter (\<lambda>l. l \<noteq> - 1) labels))"

definition extract_obstacles :: "point list \<Rightarrow> int list \<Rightarrow> obstacle list" where
  "extract_obstacles pts labels =
     map (\<lambda>label.
            let cluster_points = map fst (filter (\<lambda>(p, l). l = label) (zip pts labels))
            in \<lparr>centroid = mean_point cluster_points, points = cluster_points\<rparr>)
       (unique_labels labels)"

definition segment_obstacles :: "real list list \<Rightarrow> bool list list \<Rightarrow> py_error + obstacle list" where
  "segment_obstacles depth_map ground_mask =
     (case non_ground_points depth_map ground_mask of
        Inl e \<Rightarrow> Inl e
      | Inr pts \<Rightarrow>
          (case dbscan_fit 10 20 pts of
             Inl e \<Rightarrow> Inl e
           | Inr labels \<Rightarrow> Inr (extract_obstacles pts labels)))"

section \<open>camera/capture.py\<close>

text \<open>\<open>cap.read()\<close> returns the pair \<open>(ret, frame)\<close>; the camera is the source of these pairs.\<close>

definition capture_frame :: "bool \<times> 'f \<Rightarrow> py_error + 'f" where
  "capture_frame rd =
     (case rd of (ret, frame) \<Rightarrow>
        if \<not> ret then Inl (Exception ''Failed to capture frame from camera'') else Inr frame)"

section \<open>main.py\<close>

text \<open>
  What the outside world supplies to one pass of the loop: the result of \<open>cap.read()\<close> and
  the value of \<open>cv2.waitKey(1)\<close>. The depth estimator is a parameter \<open>estimate_depth\<close> and the
  serial port is the list of commands written so far. Lines 22 and 23 hand the obstacles
  to the visualiser, which draws them and gives nothing back to the pipeline; the call is
  left out.
\<close>

record 'f cycle =
  cam_read :: "bool \<times> 'f"
  wait_key :: int

datatype loop_end = Break | Raised py_error | Looping

text \<open>
  \<open>main()\<close> over the passes observed so far: \<open>Break\<close> when \<open>q\<close> was pressed, \<open>Raised\<close> when an
  exception left the loop, \<open>Looping\<close> when every observed pass finished and the loop goes on.
\<close>

fun main :: "('f \<Rightarrow> real list list) \<Rightarrow> 'f cycle list \<Rightarrow> command list \<Rightarrow> loop_end \<times> command list" where
  "main estimate_depth [] ser = (Looping, ser)"
| "main estimate_depth (c # cs) ser =
     (case capture_frame (cam_read c) of
        Inl e \<Rightarrow> (Raised e, ser)
      | Inr frame \<Rightarrow>
          let depth_map = estimate_depth frame;
              ground_mask = estimate_ground_plane depth_map
          in case segment_obstacles depth_map ground_mask of
               Inl e \<Rightarrow> (Raised e, ser)
             | Inr obstacles \<Rightarrow>
                 (case trigger_haptic_feedback (map_obstacles_to_sectors obstacles) ser of
                    (Some e, ser') \<Rightarrow> (Raised e, ser')
                  | (None, ser') \<Rightarrow>
                      if wait_key c AND 255 = 113 then (Break, ser')
                      else main estimate_depth cs ser'))"

text \<open>
  The \<open>__main__\<close> block: an exception out of \<open>main()\<close> is printed and the script ends, as it
  does after \<open>break\<close>. \<open>Exited (Some e)\<close> is the exit after printing \<open>Error: e\<close>.
\<close>

datatype process = Exited "py_error option" | Running

definition script :: "('f \<Rightarrow> real list list) \<Rightarrow> 'f cycle list \<Rightarrow> process \<times> command list" where
  "script estimate_depth cycles =
     (case main estimate_depth cycles [] of
        (Break, ser) \<Rightarrow> (Exited None, ser)
      | (Raised e, ser) \<Rightarrow> (Exited (Some e), ser)
      | (Looping, ser) \<Rightarrow> (Running, ser))"

section \<open>The specification's wording, for comparison with the code\<close>

text \<open>
  The sector mapper of the specification: the angle of an obstacle, the three angular
  bands, and the reading of a sector, the least depth among the obstacles in its band.
\<close>

definition spec_angle :: "obstacle \<Rightarrow> real" where
  "spec_angle obs = arctan2 (fst (centroid obs) - real FRAME_WIDTH / 2) FOCAL_LENGTH * 180 / pi"

fun spec_band :: "string \<Rightarrow> real \<Rightarrow> bool" where
  "spec_band s theta =
     (if s = ''N'' then - 15 \<le> theta \<and> theta \<le> 15
      else if s = ''NE'' then 15 < theta \<and> theta \<le> 45
      else if s = ''NW'' then - 45 \<le> theta \<and> theta < - 15
      else False)"

definition spec_reading :: "obstacle list \<Rightarrow> string \<Rightarrow> real option" where
  "spec_reading obstacles s =
     (let zs = map (\<lambda>obs. snd (snd (centroid obs)))
                 (filter (\<lambda>obs. spec_band s (spec_angle obs)) obstacles)
      in if zs = [] then None else Some (Min (set zs)))"

text \<open>
  The actuation law of the specification: rounding to the nearest integer, and a command
  for every sector whose distance is present and below the warning distance.
\<close>

definition spec_intensity :: "real \<Rightarrow> real \<Rightarrow> int" where
  "spec_intensity warning distance = max 0 (min 255 (round (255 * (1 - distance / warning))))"

definition spec_commands :: "(string \<times> real option) list \<Rightarrow> command list" where
  "spec_commands sectors =
     concat (map (\<lambda>(sector, distance).
        case distance of
          None \<Rightarrow> []
        | Some d \<Rightarrow>
            if d < WARNING_DISTANCE
            then [\<lparr>motor_id = the (motor_map sector), intensity = spec_intensity WARNING_DISTANCE d\<rparr>]
            else []) sectors)"

section \<open>Auxiliary notions of the proofs\<close>

text \<open>The depths of the obstacles whose angle satisfies \<open>band\<close>, in the order of the input.\<close>

definition zs_in :: "(real \<Rightarrow> bool) \<Rightarrow> obstacle list \<Rightarrow> real list" where
  "zs_in band obstacles =
     map (\<lambda>obs. snd (snd (centroid obs)))
       (filter (\<lambda>obs. band (angle_of (fst (centroid obs)))) obstacles)"

text \<open>
  A core point of a point cloud, for the parameters of line 13: at least 20 points of the
  cloud, the point itself included, lie within distance 10 of it.
\<close>

definition core_point :: "point list \<Rightarrow> point \<Rightarrow> bool" where
  "core_point pts p = (20 \<le> length (filter (in_radius 10 p) pts))"

text \<open>
  The invariant of the outer loop of \<open>dbscan_inner\<close> on \<open>n\<close> samples, with \<open>k\<close> clusters
  started so far: every label is \<open>-1\<close> or a cluster number below \<open>k\<close>, and every cluster
  number below \<open>k\<close> is the label of some core sample.
\<close>

definition labels_ok :: "bool list \<Rightarrow> nat \<Rightarrow> int list \<times> nat \<Rightarrow> bool" where
  "labels_ok is_core n st =
     (case st of (labels, k) \<Rightarrow>
        length labels = n
        \<and> (\<forall>j < n. labels ! j = - 1 \<or> (0 \<le> labels ! j \<and> labels ! j < int k))
        \<and> (\<forall>l < k. \<exists>j < n. is_core ! j \<and> labels ! j = int l))"

text \<open>
  An example frame of 2 rows and 37 columns, depth 0 everywhere. The pixels that are not
  ground form two blocks of 19 pixels, columns 0 to 9 and 27 to 36 less one corner
  each, and a single pixel in column 18 of row 0, which is within distance 10 of both
  blocks. Below are its point cloud, the neighbourhoods of the points, and the labels.
\<close>

abbreviation example_depth_map :: "real list list" where
  "example_depth_map \<equiv> replicate 2 (replicate 37 0)"

abbreviation example_ground_mask :: "bool list list" where
  "example_ground_mask \<equiv>
     [replicate 10 False @ replicate 8 True @ [False] @ replicate 8 True @ replicate 10 False,
      [True] @ replicate 9 False @ replicate 17 True @ replicate 9 False @ [True]]"

definition example_points :: "point list" where
  "example_points =
     [(0, 0, 0), (1, 0, 0), (2, 0, 0), (3, 0, 0), (4, 0, 0), (5, 0, 0), (6, 0, 0), (7, 0, 0),
      (8, 0, 0), (9, 0, 0), (18, 0, 0), (27, 0, 0), (28, 0, 0), (29, 0, 0), (30, 0, 0),
      (31, 0, 0), (32, 0, 0), (33, 0, 0), (34, 0, 0), (35, 0, 0), (36, 0, 0), (1, 1, 0),
      (2, 1, 0), (3, 1, 0), (4, 1, 0), (5, 1, 0), (6, 1, 0), (7, 1, 0), (8, 1, 0), (9, 1, 0),
      (27, 1, 0), (28, 1, 0), (29, 1, 0), (30, 1, 0), (31, 1, 0), (32, 1, 0), (33, 1, 0),
      (34, 1, 0), (35, 1, 0)]"

definition example_neighborhoods :: "nat list list" where
  "example_neighborhoods =
     replicate 8 ([0..<10] @ [21..<30]) @ replicate 2 ([0..<11] @ [21..<30])
     @ [[8, 9, 10, 11, 12, 29, 30]]
     @ replicate 2 ([10..<21] @ [30..<39]) @ replicate 8 ([11..<21] @ [30..<39])
     @ replicate 8 ([0..<10] @ [21..<30]) @ [[0..<11] @ [21..<30]] @ [[10..<21] @ [30..<39]]
     @ replicate 8 ([11..<21] @ [30..<39])"

definition example_labels :: "int list" where
  "example_labels = replicate 11 0 @ replicate 10 1 @ replicate 9 0 @ replicate 9 1"

definition example_cluster0 :: "point list" where
  "example_cluster0 =
     [(0, 0, 0), (1, 0, 0), (2, 0, 0), (3, 0, 0), (4, 0, 0), (5, 0, 0), (6, 0, 0), (7, 0, 0),
      (8, 0, 0), (9, 0, 0), (18, 0, 0), (1, 1, 0), (2, 1, 0), (3, 1, 0), (4, 1, 0), (5, 1, 0),
      (6, 1, 0), (7, 1, 0), (8, 1, 0), (9, 1, 0)]"

definition example_cluster1 :: "point list" where
  "example_cluster1 =
     [(27, 0, 0), (28, 0, 0), (29, 0, 0), (30, 0, 0), (31, 0, 0), (32, 0, 0), (33, 0, 0),
      (34, 0, 0), (35, 0, 0), (36, 0, 0), (27, 1, 0), (28, 1, 0), (29, 1, 0), (30, 1, 0),
      (31, 1, 0), (32, 1, 0), (33, 1, 0), (34, 1, 0), (35, 1, 0)]"

section \<open>The sector mapper\<close>

lemma min_or_none_Cons: "min_or_none (x # xs) = Some (Min (set (x # xs)))"
proof -
  have "(\<lambda>y m. if y < m then y else m) = (min :: real \<Rightarrow> real \<Rightarrow> real)"
    by (intro ext) (simp add: min_def)
  then have "min_or_none (x # xs) = Some (fold min xs x)" by simp
  also have "fold min xs x = Min (set (x # xs))" by (rule Min.set_eq_fold[symmetric])
  finally show ?thesis .
qed

lemma angle_of_arctan: "angle_of u = arctan ((u - 320) / 525) * 180 / pi"
  by (simp add: angle_of_def arctan2_def FRAME_WIDTH_def FOCAL_LENGTH_def)

lemma fold_assign:
  "fold assign_obstacle obstacles [(''N'', a), (''NE'', b), (''NW'', c)] =
     [(''N'', a @ zs_in (\<lambda>t. - 15 \<le> t \<and> t \<le> 15) obstacles),
      (''NE'', b @ zs_in (\<lambda>t. 15 < t \<and> t \<le> 45) obstacles),
      (''NW'', c @ zs_in (\<lambda>t. - 45 \<le> t \<and> t < - 15) obstacles)]"
proof (induction obstacles arbitrary: a b c)
  case Nil
  then show ?case by (simp add: zs_in_def)
next
  case (Cons obs obstacles)
  obtain u v z where ce: "centroid obs = (u, v, z)" by (cases "centroid obs") auto
  show ?case
    using Cons.IH
    by (simp add: assign_obstacle_def ce sector_append_def zs_in_def Let_def)
qed

lemma min_or_none_Min:
  "min_or_none zs = (if zs = [] then None else Some (Min (set zs)))"
proof (cases zs)
  case Nil
  then show ?thesis by simp
next
  case (Cons x xs)
  then show ?thesis by (simp only: min_or_none_Cons list.simps if_False)
qed

lemma spec_reading_zs:
  "spec_reading obstacles ''N'' =
     (let zs = zs_in (\<lambda>t. - 15 \<le> t \<and> t \<le> 15) obstacles in if zs = [] then None else Some (Min (set zs)))"
  "spec_reading obstacles ''NE'' =
     (let zs = zs_in (\<lambda>t. 15 < t \<and> t \<le> 45) obstacles in if zs = [] then None else Some (Min (set zs)))"
  "spec_reading obstacles ''NW'' =
     (let zs = zs_in (\<lambda>t. - 45 \<le> t \<and> t < - 15) obstacles in if zs = [] then None else Some (Min (set zs)))"
  by (simp_all add: spec_reading_def zs_in_def spec_angle_def angle_of_def)

lemma map_obstacles_to_sectors_readings:
  "map_obstacles_to_sectors obstacles =
     [(''N'', spec_reading obstacles ''N''),
      (''NE'', spec_reading obstacles ''NE''),
      (''NW'', spec_reading obstacles ''NW'')]"
  unfolding map_obstacles_to_sectors_def fold_assign spec_reading_zs
  by (simp add: min_or_none_Min Let_def del: min_or_none.simps)

text \<open>Two angles used by the examples: the image centre, and a centroid five columns from the right edge.\<close>

lemma angle_of_320: "angle_of 320 = 0"
  by (simp add: angle_of_arctan)

lemma angle_of_635: "15 < angle_of 635 \<and> angle_of 635 \<le> 45"
proof -
  have s3: "sqrt 3 * sqrt 3 = 3" by simp
  have "(5::real) \<le> 3 * sqrt 3"
  proof -
    have "(5::real)\<^sup>2 \<le> (3 * sqrt 3)\<^sup>2" by (simp add: power2_eq_square s3)
    then show ?thesis by (rule power2_le_imp_le) simp
  qed
  then have "1 / sqrt 3 \<le> (3::real) / 5" by (simp add: field_simps)
  then have "arctan (1 / sqrt 3) \<le> arctan (3 / 5)" by (simp only: arctan_le_iff)
  moreover have "arctan (1 / sqrt 3) = pi / 6"
    by (rule arctan_unique) (simp_all add: tan_30)
  ultimately have lo: "pi / 6 \<le> arctan (3 / 5)" by simp
  have "arctan (3 / 5) \<le> arctan 1" by (simp only: arctan_le_iff)
  then have hi: "arctan (3 / 5) \<le> pi / 4" by (simp add: arctan_one)
  have a: "angle_of 635 = arctan (3 / 5) * 180 / pi" by (simp add: angle_of_arctan)
  have "15 * pi < arctan (3 / 5) * 180" using lo pi_gt_zero by linarith
  moreover have "arctan (3 / 5) * 180 \<le> 45 * pi" using hi by linarith
  ultimately show ?thesis unfolding a using pi_gt_zero by (simp add: field_simps)
qed

text \<open>
  C4. For every list of obstacles, the mapping returned by \<open>map_obstacles_to_sectors\<close> has
  exactly the entries N, NE and NW, in this order; the value of a sector is the least
  centroid depth among the obstacles whose angle lies in the band of the sector (N is
  [-15, 15], NE is (15, 45], NW is [-45, -15)), and \<open>None\<close> when there is none. No angle lies
  in two bands, so an obstacle counts for at most one sector, and for none when its angle
  is outside every band.
\<close>

theorem map_obstacles_to_sectors_bands:
  "map_obstacles_to_sectors obstacles =
     [(''N'', spec_reading obstacles ''N''),
      (''NE'', spec_reading obstacles ''NE''),
      (''NW'', spec_reading obstacles ''NW'')]
   \<and> (\<forall>theta s t. spec_band s theta \<and> spec_band t theta \<longrightarrow> s = t)"
proof
  show "map_obstacles_to_sectors obstacles =
     [(''N'', spec_reading obstacles ''N''),
      (''NE'', spec_reading obstacles ''NE''),
      (''NW'', spec_reading obstacles ''NW'')]"
    by (rule map_obstacles_to_sectors_readings)
  show "\<forall>theta s t. spec_band s theta \<and> spec_band t theta \<longrightarrow> s = t"
    by (auto split: if_splits)
qed

text \<open>
  Two obstacles straight ahead at depths 1 and 3 and one to the right at depth 1/2: N reads
  the nearer of its two, NE reads 1/2, NW is empty.
\<close>

theorem map_obstacles_to_sectors_bands_witness:
  "map_obstacles_to_sectors
     [\<lparr>centroid = (320, 240, 1), points = [(320, 240, 1)]\<rparr>,
      \<lparr>centroid = (320, 100, 3), points = [(320, 100, 3)]\<rparr>,
      \<lparr>centroid = (635, 240, 1 / 2), points = [(635, 240, 1 / 2)]\<rparr>]
   = [(''N'', Some 1), (''NE'', Some (1 / 2)), (''NW'', None)]
   \<and> spec_band ''N'' 0 \<and> \<not> spec_band ''NE'' 0"
  using map_obstacles_to_sectors_bands
     [of "[\<lparr>centroid = (320, 240, 1), points = [(320, 240, 1)]\<rparr>,
      \<lparr>centroid = (320, 100, 3), points = [(320, 100, 3)]\<rparr>,
      \<lparr>centroid = (635, 240, 1 / 2), points = [(635, 240, 1 / 2)]\<rparr>]"]
     angle_of_635
  by (simp add: spec_reading_def spec_angle_def angle_of_def[symmetric] angle_of_320)

section \<open>The actuation law\<close>

lemma py_int_mono: "x \<le> y \<Longrightarrow> py_int x \<le> py_int y"
proof -
  assume xy: "x \<le> y"
  have a: "\<lfloor>x\<rfloor> \<le> \<lfloor>y\<rfloor>" "\<lceil>x\<rceil> \<le> \<lceil>y\<rceil>"
    using xy by (simp_all add: floor_mono ceiling_mono)
  have b: "\<lceil>x\<rceil> \<le> \<lfloor>y\<rfloor>" if "\<not> 0 \<le> x" "0 \<le> y"
  proof -
    from that have "\<lceil>x\<rceil> \<le> 0" "0 \<le> \<lfloor>y\<rfloor>" by (simp_all add: ceiling_le_iff)
    then show ?thesis by linarith
  qed
  show ?thesis unfolding py_int_def using a b xy by auto
qed

lemma intensity_of_mono:
  assumes "0 < W" "d1 \<le> d2"
  shows "intensity_of W d2 \<le> intensity_of W d1"
proof -
  have "d1 / W \<le> d2 / W" using assms by (simp add: divide_right_mono)
  then have "255 * (1 - d2 / W) \<le> 255 * (1 - d1 / W)" by simp
  then have "py_int (255 * (1 - d2 / W)) \<le> py_int (255 * (1 - d1 / W))" by (rule py_int_mono)
  then show ?thesis unfolding intensity_of_def by linarith
qed

text \<open>
  C5. For a positive warning distance \<open>W\<close>, the intensity computed by lines 13 and 14 of
  \<open>trigger_haptic_feedback\<close> is 255 at distance 0, is 0 at distance \<open>W\<close>, and does not
  increase when the distance increases within [0, W].
\<close>

theorem intensity_law:
  "0 < W \<Longrightarrow>
     intensity_of W 0 = 255 \<and> intensity_of W W = 0 \<and>
     (\<forall>d1 d2. 0 \<le> d1 \<and> d1 \<le> d2 \<and> d2 \<le> W \<longrightarrow> intensity_of W d2 \<le> intensity_of W d1)"
  by (simp add: intensity_of_mono) (simp add: intensity_of_def py_int_def)

text \<open>At the configured warning distance 2: distances 1/2 and 3/2 give 191 and 63.\<close>

theorem intensity_law_witness:
  "(0::real) < 2 \<and> intensity_of 2 0 = 255 \<and> intensity_of 2 2 = 0 \<and>
   intensity_of 2 (1 / 2) = 191 \<and> intensity_of 2 (3 / 2) = 63 \<and>
   intensity_of 2 (3 / 2) \<le> intensity_of 2 (1 / 2)"
proof -
  have h: "(0::real) < 2" by simp
  have a: "intensity_of 2 (1 / 2) = 191" "intensity_of 2 (3 / 2) = 63"
    by (simp_all add: intensity_of_def py_int_def)
  from intensity_law[OF h] a show ?thesis by simp
qed

section \<open>Sector readings into commands\<close>

lemma trigger_three:
  "\<exists>cmds. trigger_haptic_feedback [(''N'', a), (''NE'', b), (''NW'', c)] ser = (None, ser @ cmds)
     \<and> cmds =
        (if py_truthy a \<and> the a < WARNING_DISTANCE
         then [\<lparr>motor_id = 0, intensity = intensity_of WARNING_DISTANCE (the a)\<rparr>] else []) @
        (if py_truthy b \<and> the b < WARNING_DISTANCE
         then [\<lparr>motor_id = 1, intensity = intensity_of WARNING_DISTANCE (the b)\<rparr>] else []) @
        (if py_truthy c \<and> the c < WARNING_DISTANCE
         then [\<lparr>motor_id = 2, intensity = intensity_of WARNING_DISTANCE (the c)\<rparr>] else [])"
  by (simp add: motor_map_def)

lemma sectors_example:
  "map_obstacles_to_sectors
     [\<lparr>centroid = (320, 240, 3 / 2), points = [(320, 240, 3 / 2)]\<rparr>,
      \<lparr>centroid = (635, 240, 0), points = [(635, 240, 0)]\<rparr>]
   = [(''N'', Some (3 / 2)), (''NE'', Some 0), (''NW'', None)]"
  using angle_of_635
  by (simp add: map_obstacles_to_sectors_readings spec_reading_def spec_angle_def
        angle_of_def[symmetric] angle_of_320)

lemma sectors_example_half:
  "map_obstacles_to_sectors [\<lparr>centroid = (320, 240, 1 / 2), points = [(320, 240, 1 / 2)]\<rparr>]
   = [(''N'', Some (1 / 2)), (''NE'', None), (''NW'', None)]"
  by (simp add: map_obstacles_to_sectors_readings spec_reading_def spec_angle_def
        angle_of_def[symmetric] angle_of_320)

text \<open>
  C1, as the code has it. For every sector reading produced from a frame's obstacles whose
  distance is \<open>None\<close> or is not zero, \<open>trigger_haptic_feedback\<close> raises no error and writes a
  command for the sector if and only if the distance is present and below the warning
  distance; it writes exactly one, of intensity clamp(trunc(255 * (1 - distance /
  warningDistance)), 0, 255), where trunc drops the fraction as Python's \<open>int\<close> does.
\<close>

theorem trigger_emits:
  assumes "(s, reading) \<in> set (map_obstacles_to_sectors obstacles)" and "reading \<noteq> Some 0"
  shows "\<exists>cmds. trigger_haptic_feedback (map_obstacles_to_sectors obstacles) ser = (None, ser @ cmds) \<and>
           map intensity (filter (\<lambda>c. Some (motor_id c) = motor_map s) cmds) =
             (case reading of
                None \<Rightarrow> []
              | Some d \<Rightarrow>
                  if d < WARNING_DISTANCE
                  then [max 0 (min 255 (py_int (255 * (1 - d / WARNING_DISTANCE))))]
                  else [])"
proof -
  obtain a b c where s: "map_obstacles_to_sectors obstacles = [(''N'', a), (''NE'', b), (''NW'', c)]"
    using map_obstacles_to_sectors_readings by blast
  obtain cmds where t: "trigger_haptic_feedback [(''N'', a), (''NE'', b), (''NW'', c)] ser = (None, ser @ cmds)"
    and c: "cmds =
        (if py_truthy a \<and> the a < WARNING_DISTANCE
         then [\<lparr>motor_id = 0, intensity = intensity_of WARNING_DISTANCE (the a)\<rparr>] else []) @
        (if py_truthy b \<and> the b < WARNING_DISTANCE
         then [\<lparr>motor_id = 1, intensity = intensity_of WARNING_DISTANCE (the b)\<rparr>] else []) @
        (if py_truthy c \<and> the c < WARNING_DISTANCE
         then [\<lparr>motor_id = 2, intensity = intensity_of WARNING_DISTANCE (the c)\<rparr>] else [])"
    using trigger_three by blast
  from assms(1) s
  have "(s, reading) = (''N'', a) \<or> (s, reading) = (''NE'', b) \<or> (s, reading) = (''NW'', c)"
    by simp
  then have "map intensity (filter (\<lambda>c. Some (motor_id c) = motor_map s) cmds) =
             (case reading of
                None \<Rightarrow> []
              | Some d \<Rightarrow>
                  if d < WARNING_DISTANCE
                  then [max 0 (min 255 (py_int (255 * (1 - d / WARNING_DISTANCE))))]
                  else [])"
    using assms(2) unfolding c
    by (elim disjE) (auto simp: motor_map_def intensity_of_def split: option.splits)
  with s t show ?thesis by simp
qed

text \<open>The scenario of the specification: an obstacle straight ahead at distance 1/2 gives 191.\<close>

theorem trigger_emits_witness:
  "(''N'', Some (1 / 2)) \<in> set (map_obstacles_to_sectors
      [\<lparr>centroid = (320, 240, 1 / 2), points = [(320, 240, 1 / 2)]\<rparr>])
   \<and> (\<exists>cmds. trigger_haptic_feedback (map_obstacles_to_sectors
          [\<lparr>centroid = (320, 240, 1 / 2), points = [(320, 240, 1 / 2)]\<rparr>]) [] = (None, cmds)
        \<and> map intensity (filter (\<lambda>c. Some (motor_id c) = motor_map ''N'') cmds) = [191])"
proof -
  have h1: "(''N'', Some (1 / 2)) \<in> set (map_obstacles_to_sectors
      [\<lparr>centroid = (320, 240, 1 / 2), points = [(320, 240, 1 / 2)]\<rparr>])"
    unfolding sectors_example_half by simp
  have h2: "Some (1 / 2) \<noteq> Some (0::real)" by simp
  from trigger_emits[OF h1 h2, of "[]"] h1 show ?thesis
    by (simp add: WARNING_DISTANCE_def py_int_def)
qed

text \<open>
  The claim as the specification words it fails on a frame with an obstacle straight ahead
  at distance 3/2 and one to the right at distance 0. The code writes the single command
  (0, 63): 255 * (1 - 0.75) is 63.75, which \<open>int\<close> truncates, and the reading 0 is false in
  the test of line 10. The specification's law asks for (0, 64) and (1, 255).
\<close>

theorem trigger_emits_counterexample:
  "trigger_haptic_feedback
     (map_obstacles_to_sectors
       [\<lparr>centroid = (320, 240, 3 / 2), points = [(320, 240, 3 / 2)]\<rparr>,
        \<lparr>centroid = (635, 240, 0), points = [(635, 240, 0)]\<rparr>]) []
     = (None, [\<lparr>motor_id = 0, intensity = 63\<rparr>])
   \<and> spec_commands
     (map_obstacles_to_sectors
       [\<lparr>centroid = (320, 240, 3 / 2), points = [(320, 240, 3 / 2)]\<rparr>,
        \<lparr>centroid = (635, 240, 0), points = [(635, 240, 0)]\<rparr>])
     = [\<lparr>motor_id = 0, intensity = 64\<rparr>, \<lparr>motor_id = 1, intensity = 255\<rparr>]"
  unfolding sectors_example
  by (simp add: spec_commands_def spec_intensity_def intensity_of_def py_int_def
        WARNING_DISTANCE_def motor_map_def round_def)

text \<open>
  C10. For every list of obstacles, the keys of the mapping returned by
  \<open>map_obstacles_to_sectors\<close> are N, NE and NW, each of them has a motor in the motor map of
  \<open>trigger_haptic_feedback\<close> (0, 1 and 2), and \<open>trigger_haptic_feedback\<close> on that mapping
  raises no \<open>KeyError\<close> and writes at most one command per motor.
\<close>

theorem sectors_match_motor_map:
  "map fst (map_obstacles_to_sectors obstacles) = [''N'', ''NE'', ''NW'']
   \<and> motor_map ''N'' = Some 0 \<and> motor_map ''NE'' = Some 1 \<and> motor_map ''NW'' = Some 2
   \<and> (\<exists>cmds. trigger_haptic_feedback (map_obstacles_to_sectors obstacles) ser = (None, ser @ cmds)
          \<and> distinct (map motor_id cmds))"
proof -
  obtain a b c where s: "map_obstacles_to_sectors obstacles = [(''N'', a), (''NE'', b), (''NW'', c)]"
    using map_obstacles_to_sectors_readings by blast
  obtain cmds where t: "trigger_haptic_feedback [(''N'', a), (''NE'', b), (''NW'', c)] ser = (None, ser @ cmds)"
    and c: "cmds =
        (if py_truthy a \<and> the a < WARNING_DISTANCE
         then [\<lparr>motor_id = 0, intensity = intensity_of WARNING_DISTANCE (the a)\<rparr>] else []) @
        (if py_truthy b \<and> the b < WARNING_DISTANCE
         then [\<lparr>motor_id = 1, intensity = intensity_of WARNING_DISTANCE (the b)\<rparr>] else []) @
        (if py_truthy c \<and> the c < WARNING_DISTANCE
         then [\<lparr>motor_id = 2, intensity = intensity_of WARNING_DISTANCE (the c)\<rparr>] else [])"
    using trigger_three by blast
  have "distinct (map motor_id cmds)" unfolding c by auto
  with s t show ?thesis by (simp add: motor_map_def)
qed

theorem sectors_match_motor_map_witness:
  "\<exists>cmds. trigger_haptic_feedback
     (map_obstacles_to_sectors
       [\<lparr>centroid = (320, 240, 3 / 2), points = [(320, 240, 3 / 2)]\<rparr>,
        \<lparr>centroid = (635, 240, 0), points = [(635, 240, 0)]\<rparr>]) [] = (None, cmds)
     \<and> distinct (map motor_id cmds)"
  using sectors_match_motor_map
     [of "[\<lparr>centroid = (320, 240, 3 / 2), points = [(320, 240, 3 / 2)]\<rparr>,
        \<lparr>centroid = (635, 240, 0), points = [(635, 240, 0)]\<rparr>]" "[]"]
  by simp

section \<open>The ground-plane classifier\<close>


lemma estimate_ground_plane_nth:
  assumes "v < fst (shape depth_map)" "u < snd (shape depth_map)"
  shows "estimate_ground_plane depth_map ! v ! u
           = (\<bar>pixel_height (fst (shape depth_map)) v (depth_map ! v ! u)\<bar> < 1 / 10)"
  using assms by (simp add: estimate_ground_plane_def shape_def split: if_splits)

lemma shape_estimate_ground_plane: "shape (estimate_ground_plane depth_map) = shape depth_map"
  by (cases depth_map) (simp_all add: estimate_ground_plane_def shape_def hd_map upt_conv_Cons del: upt_Suc)

lemma rect_estimate_ground_plane: "rect (estimate_ground_plane depth_map)"
  unfolding rect_def shape_estimate_ground_plane
  by (simp add: estimate_ground_plane_def shape_def list_all_iff)

lemma shape_not: "shape (map (map Not) m) = shape m"
  by (cases m) (simp_all add: shape_def)

lemma np_where_iff:
  "(v, u) \<in> set (np_where m) \<longleftrightarrow> v < length m \<and> u < length (m ! v) \<and> m ! v ! u"
  by (auto simp: np_where_def)

lemma rect_row_length: "rect a \<Longrightarrow> v < length a \<Longrightarrow> length (a ! v) = snd (shape a)"
  by (simp add: rect_def list_all_length)

lemma non_ground_points_eq:
  assumes "shape ground_mask = shape depth_map"
  shows "non_ground_points depth_map ground_mask =
           Inr (map (\<lambda>(v, u). (real u, real v, depth_map ! v ! u)) (np_where (map (map Not) ground_mask)))"
proof -
  have z: "zip xs (map f xs) = map (\<lambda>x. (x, f x)) xs" for xs :: "(nat \<times> nat) list" and f :: "nat \<times> nat \<Rightarrow> real"
    by (induction xs) simp_all
  show ?thesis
    using assms
    by (simp add: non_ground_points_def mask_index_def shape_not Let_def z case_prod_unfold)
qed

text \<open>
  C7. In every depth map, a pixel whose computed height \<open>-y - cameraHeight\<close> is exactly 0 is
  classified as ground by \<open>estimate_ground_plane\<close>: the tolerance 0.1 of line 16 is positive.
\<close>

theorem zero_height_is_ground:
  assumes "rect depth_map" and "v < fst (shape depth_map)" and "u < snd (shape depth_map)"
    and "pixel_height (fst (shape depth_map)) v (depth_map ! v ! u) = 0"
  shows "estimate_ground_plane depth_map ! v ! u"
  using assms by (simp add: estimate_ground_plane_nth)

text \<open>
  In a map of two rows, the pixel of row 0 with depth 630 has \<open>y = -1.2\<close> and height 0.
\<close>

theorem zero_height_is_ground_witness:
  "rect [[630], [0::real]] \<and> 0 < fst (shape [[630], [0::real]]) \<and> 0 < snd (shape [[630], [0::real]])
   \<and> pixel_height (fst (shape [[630], [0::real]])) 0 ([[630], [0]] ! 0 ! 0) = 0
   \<and> estimate_ground_plane [[630], [0]] ! 0 ! 0"
proof -
  have h1: "rect [[630], [0::real]]" by (simp add: rect_def shape_def)
  have h2: "0 < fst (shape [[630], [0::real]])" by (simp add: shape_def)
  have h3: "0 < snd (shape [[630], [0::real]])" by (simp add: shape_def)
  have h4: "pixel_height (fst (shape [[630], [0::real]])) 0 ([[630], [0]] ! 0 ! 0) = 0"
    by (simp add: shape_def pixel_height_def FOCAL_LENGTH_def GROUND_HEIGHT_THRESHOLD_def)
  from zero_height_is_ground[OF h1 h2 h3 h4] h1 h2 h3 h4 show ?thesis by simp
qed

text \<open>
  C8. Two depth maps of the same dimensions that agree at a pixel get the same
  classification at that pixel from \<open>estimate_ground_plane\<close>, whatever the other pixels hold.
\<close>

theorem ground_mask_pixelwise:
  assumes "rect dm1" and "rect dm2" and "shape dm1 = shape dm2"
    and "v < fst (shape dm1)" and "u < snd (shape dm1)"
    and "dm1 ! v ! u = dm2 ! v ! u"
  shows "estimate_ground_plane dm1 ! v ! u = estimate_ground_plane dm2 ! v ! u"
  using assms by (simp add: estimate_ground_plane_nth)

text \<open>
  C9. In every depth map, a pixel whose depth is exactly 0 has height -1.2, is classified
  as not ground by \<open>estimate_ground_plane\<close>, and its point \<open>(u, v, 0)\<close> is in the point cloud
  that \<open>segment_obstacles\<close> builds from the depth map and that mask.
\<close>

theorem zero_depth_is_obstacle:
  assumes "rect depth_map" and "v < fst (shape depth_map)" and "u < snd (shape depth_map)"
    and "depth_map ! v ! u = 0"
  shows "pixel_height (fst (shape depth_map)) v (depth_map ! v ! u) = - (12 / 10)
         \<and> \<not> estimate_ground_plane depth_map ! v ! u
         \<and> (\<exists>pts. non_ground_points depth_map (estimate_ground_plane depth_map) = Inr pts
                \<and> (real u, real v, 0) \<in> set pts)"
proof -
  have h: "pixel_height (fst (shape depth_map)) v (depth_map ! v ! u) = - (12 / 10)"
    using assms(4) by (simp add: pixel_height_def GROUND_HEIGHT_THRESHOLD_def)
  have g: "\<not> estimate_ground_plane depth_map ! v ! u"
    using assms(2,3) h by (simp add: estimate_ground_plane_nth)
  let ?m = "map (map Not) (estimate_ground_plane depth_map)"
  have lv: "v < length (estimate_ground_plane depth_map)"
    using assms(2) shape_estimate_ground_plane[of depth_map] by (simp add: shape_def)
  have lu: "length (estimate_ground_plane depth_map ! v) = snd (shape depth_map)"
    using rect_row_length[OF rect_estimate_ground_plane, of v depth_map] lv
    by (simp add: shape_estimate_ground_plane)
  have "(v, u) \<in> set (np_where ?m)"
    unfolding np_where_iff using lv lu assms(3) g by simp
  then have "(\<lambda>(v, u). (real u, real v, depth_map ! v ! u)) (v, u)
      \<in> set (map (\<lambda>(v, u). (real u, real v, depth_map ! v ! u)) (np_where ?m))"
    by (simp only: set_map) (rule imageI)
  then have "(real u, real v, 0) \<in> set (map (\<lambda>(v, u). (real u, real v, depth_map ! v ! u)) (np_where ?m))"
    using assms(4) by simp
  with non_ground_points_eq[OF shape_estimate_ground_plane, of depth_map] h g show ?thesis by simp
qed

text \<open>Two maps that agree at pixel (0, 0) and differ everywhere else.\<close>

theorem ground_mask_pixelwise_witness:
  "rect [[630, 0], [0, 0::real]] \<and> rect [[630, 1], [1, 1::real]]
   \<and> shape [[630, 0], [0, 0::real]] = shape [[630, 1], [1, 1::real]]
   \<and> [[630, 0], [0, 0::real]] ! 0 ! 0 = [[630, 1], [1, 1::real]] ! 0 ! 0
   \<and> estimate_ground_plane [[630, 0], [0, 0]] ! 0 ! 0 = estimate_ground_plane [[630, 1], [1, 1]] ! 0 ! 0
   \<and> estimate_ground_plane [[630, 0], [0, 0]] = [[True, False], [False, False]]
   \<and> estimate_ground_plane [[630, 1], [1, 1]] = [[True, False], [False, False]]"
proof -
  have h1: "rect [[630, 0], [0, 0::real]]" by (simp add: rect_def shape_def)
  have h2: "rect [[630, 1], [1, 1::real]]" by (simp add: rect_def shape_def)
  have h3: "shape [[630, 0], [0, 0::real]] = shape [[630, 1], [1, 1::real]]" by (simp add: shape_def)
  have h4: "0 < fst (shape [[630, 0], [0, 0::real]])" by (simp add: shape_def)
  have h5: "0 < snd (shape [[630, 0], [0, 0::real]])" by (simp add: shape_def)
  have h6: "[[630, 0], [0, 0::real]] ! 0 ! 0 = [[630, 1], [1, 1::real]] ! 0 ! 0" by simp
  have e1: "estimate_ground_plane [[630, 0], [0, 0]] = [[True, False], [False, False]]"
    by (simp add: estimate_ground_plane_def shape_def pixel_height_def FOCAL_LENGTH_def
          GROUND_HEIGHT_THRESHOLD_def upt_conv_Cons)
  have e2: "estimate_ground_plane [[630, 1], [1, 1]] = [[True, False], [False, False]]"
    by (simp add: estimate_ground_plane_def shape_def pixel_height_def FOCAL_LENGTH_def
          GROUND_HEIGHT_THRESHOLD_def upt_conv_Cons)
  from ground_mask_pixelwise[OF h1 h2 h3 h4 h5 h6] h1 h2 h3 h6 e1 e2 show ?thesis by simp
qed

text \<open>Pixel (0, 1) of a two by two map holds depth 0; its point is \<open>(1, 0, 0)\<close>.\<close>

theorem zero_depth_is_obstacle_witness:
  "rect [[630, 0], [0, 0::real]] \<and> [[630, 0], [0, 0::real]] ! 0 ! 1 = 0
   \<and> \<not> estimate_ground_plane [[630, 0], [0, 0]] ! 0 ! 1
   \<and> (\<exists>pts. non_ground_points [[630, 0], [0, 0]] (estimate_ground_plane [[630, 0], [0, 0]]) = Inr pts
          \<and> (1, 0, 0) \<in> set pts)"
proof -
  have h1: "rect [[630, 0], [0, 0::real]]" by (simp add: rect_def shape_def)
  have h2: "0 < fst (shape [[630, 0], [0, 0::real]])" by (simp add: shape_def)
  have h3: "1 < snd (shape [[630, 0], [0, 0::real]])" by (simp add: shape_def)
  have h4: "[[630, 0], [0, 0::real]] ! 0 ! 1 = 0" by simp
  from zero_depth_is_obstacle[OF h1 h2 h3 h4] h1 h4 show ?thesis by simp
qed

section \<open>The frame loop\<close>

lemma main_append:
  "main estimate_depth pre ser = (Looping, ser') \<Longrightarrow>
   main estimate_depth (pre @ rest) ser = main estimate_depth rest ser'"
proof (induction pre arbitrary: ser)
  case Nil
  then show ?case by simp
next
  case (Cons c pre)
  then show ?case
    by (auto simp: Let_def split: sum.splits prod.splits option.splits if_splits)
qed

text \<open>
  C3, as the code has it. When \<open>cap.read()\<close> reports no frame in some pass of the loop,
  \<open>capture_frame\<close> raises, nothing in \<open>main\<close> catches it, and the loop ends there: no later
  stage runs on the missing frame, no command is written in that pass, and no further pass
  runs whatever the camera would deliver next.
\<close>

theorem capture_failure_ends_loop:
  assumes "main estimate_depth pre ser = (Looping, ser')" and "\<not> fst (cam_read c)"
  shows "main estimate_depth (pre @ c # cs) ser
           = (Raised (Exception ''Failed to capture frame from camera''), ser')"
  using assms(2) by (simp add: main_append[OF assms(1)] capture_frame_def case_prod_unfold)

text \<open>The \<open>__main__\<close> block then prints the error and the script ends.\<close>

lemma script_capture_failure:
  assumes "main estimate_depth pre [] = (Looping, ser')" and "\<not> fst (cam_read c)"
  shows "script estimate_depth (pre @ c # cs)
           = (Exited (Some (Exception ''Failed to capture frame from camera'')), ser')"
  using assms(2) by (simp add: script_def main_append[OF assms(1)] capture_frame_def case_prod_unfold)

lemma segment_single: "segment_obstacles [[0]] (estimate_ground_plane [[0]]) = Inr []"
  by (simp add: segment_obstacles_def non_ground_points_def mask_index_def np_where_def
      estimate_ground_plane_def shape_def pixel_height_def GROUND_HEIGHT_THRESHOLD_def
      dbscan_fit_def neighborhoods_of_def dbscan_inner_def dbscan_step_def extract_obstacles_def
      unique_labels_def in_radius_def sqdist_def)

lemma sectors_none: "map_obstacles_to_sectors [] = [(''N'', None), (''NE'', None), (''NW'', None)]"
  by (simp add: map_obstacles_to_sectors_def)

lemma good_pass:
  "main id [\<lparr>cam_read = (True, [[0]]), wait_key = 113\<rparr>] [] = (Break, [])"
  by (simp add: capture_frame_def segment_single sectors_none)

text \<open>
  The claim as the specification words it, skip the frame and retry, fails on a camera that
  misses one frame and delivers the next, on which \<open>q\<close> is pressed: the loop ends with the
  exception of the first pass and the script exits after printing it, while a loop that
  had skipped the missing frame would have run the second pass and ended by \<open>break\<close>.
\<close>

theorem capture_failure_counterexample:
  "main id [\<lparr>cam_read = (False, [[0]]), wait_key = - 1\<rparr>,
                   \<lparr>cam_read = (True, [[0]]), wait_key = 113\<rparr>] []
     = (Raised (Exception ''Failed to capture frame from camera''), [])
   \<and> main id [\<lparr>cam_read = (True, [[0]]), wait_key = 113\<rparr>] [] = (Break, [])
   \<and> script id [\<lparr>cam_read = (False, [[0]]), wait_key = - 1\<rparr>,
                     \<lparr>cam_read = (True, [[0]]), wait_key = 113\<rparr>]
     = (Exited (Some (Exception ''Failed to capture frame from camera'')), [])"
  by (simp add: script_def capture_frame_def segment_single sectors_none)

lemma pass_continues:
  "main id [\<lparr>cam_read = (True, [[0]]), wait_key = - 1\<rparr>] [] = (Looping, [])"
  by (simp add: capture_frame_def segment_single sectors_none)

text \<open>One good pass, then a missing frame, then a frame that is never looked at.\<close>

theorem capture_failure_ends_loop_witness:
  "main id [\<lparr>cam_read = (True, [[0]]), wait_key = - 1\<rparr>] [] = (Looping, [])
   \<and> \<not> fst (cam_read \<lparr>cam_read = (False, [[0::real]]), wait_key = - 1\<rparr>)
   \<and> main id ([\<lparr>cam_read = (True, [[0]]), wait_key = - 1\<rparr>]
         @ \<lparr>cam_read = (False, [[0]]), wait_key = - 1\<rparr> # [\<lparr>cam_read = (True, [[0]]), wait_key = - 1\<rparr>]) []
       = (Raised (Exception ''Failed to capture frame from camera''), [])"
proof -
  have h2: "\<not> fst (cam_read \<lparr>cam_read = (False, [[0::real]]), wait_key = - 1\<rparr>)" by simp
  from capture_failure_ends_loop[OF pass_continues h2] pass_continues h2 show ?thesis by simp
qed

section \<open>The clusterer on an empty point cloud\<close>

text \<open>
  C2 asks that \<open>segment_obstacles\<close> return an empty sequence, and no error, when every pixel
  is marked ground. The code does not do so: the point cloud is then empty, and the call
  of \<open>DBSCAN.fit\<close> on it raises \<open>ValueError\<close>, which \<open>segment_obstacles\<close> does not catch. This is
  so for a mask given as all true, and for the mask that \<open>estimate_ground_plane\<close> computes
  for the one-pixel depth map [[1260]], whose height is 0.
\<close>

theorem segment_obstacles_all_ground:
  "segment_obstacles [[1, 1], [1, 1]] [[True, True], [True, True]] = Inl ValueError
   \<and> estimate_ground_plane [[1260]] = [[True]]
   \<and> segment_obstacles [[1260]] (estimate_ground_plane [[1260]]) = Inl ValueError"
  by (simp add: segment_obstacles_def non_ground_points_def mask_index_def np_where_def
      shape_def dbscan_fit_def estimate_ground_plane_def pixel_height_def FOCAL_LENGTH_def
      GROUND_HEIGHT_THRESHOLD_def)

text \<open>The same for every mask that is true everywhere and has the shape of the depth map.\<close>

lemma all_ground_raises:
  assumes "shape ground_mask = shape depth_map"
    and "\<forall>v < length ground_mask. \<forall>u < length (ground_mask ! v). ground_mask ! v ! u"
  shows "segment_obstacles depth_map ground_mask = Inl ValueError"
proof -
  have "filter (\<lambda>u. map (map Not) ground_mask ! v ! u) [0..<length (map (map Not) ground_mask ! v)] = []"
    if "v < length ground_mask" for v
    using that assms(2) by (simp add: filter_empty_conv)
  then have "np_where (map (map Not) ground_mask) = []"
    by (simp add: np_where_def)
  then show ?thesis using assms(1)
    by (simp add: segment_obstacles_def non_ground_points_def mask_index_def shape_not dbscan_fit_def)
qed


section \<open>The clusterer: what a cluster holds\<close>

lemma expand_labelled:
  assumes "i < length labs \<and> labs ! i = - 1"
  shows "expand c n k i st labs =
     (case (if c ! i then rev (filter (\<lambda>v. (labs[i := int k]) ! v = - 1) (n ! i)) @ st else st) of
        [] \<Rightarrow> labs[i := int k]
      | j # rest \<Rightarrow> expand c n k j rest (labs[i := int k]))"
  by (subst expand.simps, subst if_P[OF assms], rule refl)

lemma expand_skipped:
  assumes "\<not> (i < length labs \<and> labs ! i = - 1)"
  shows "expand c n k i st labs = (case st of [] \<Rightarrow> labs | j # rest \<Rightarrow> expand c n k j rest labs)"
  by (subst expand.simps, subst if_not_P[OF assms], rule refl)

lemma expand_invariant:
  assumes "Q labels"
    and "\<And>L i. Q L \<Longrightarrow> i < length L \<Longrightarrow> L ! i = - 1 \<Longrightarrow> Q (L[i := int label_num])"
  shows "Q (expand is_core neighborhoods label_num i stack labels)"
  using assms
proof (induction is_core neighborhoods label_num i stack labels rule: expand.induct)
  case (1 c n k i st labs)
  note step = "1.prems"(2)
  show ?case
  proof (cases "i < length labs \<and> labs ! i = - 1")
    case True
    then have QL: "Q (labs[i := int k])" using step[OF "1.prems"(1)] by simp
    show ?thesis
    proof (cases "if c ! i then rev (filter (\<lambda>v. (labs[i := int k]) ! v = - 1) (n ! i)) @ st else st")
      case Nil
      show ?thesis by (simp only: expand_labelled[OF True] Nil list.case QL)
    next
      case (Cons x xs)
      from "1.IH"(1)[OF True Cons QL step] show ?thesis
        by (simp only: expand_labelled[OF True] Cons list.case)
    qed
  next
    case False
    show ?thesis
    proof (cases st)
      case Nil
      show ?thesis by (simp only: expand_skipped[OF False] Nil list.case "1.prems"(1))
    next
      case (Cons x xs)
      from "1.IH"(2)[OF False Cons "1.prems"(1) step] show ?thesis
        by (simp only: expand_skipped[OF False] Cons list.case)
    qed
  qed
qed

lemma expand_length: "length (expand c n k i st labs) = length labs"
  by (rule expand_invariant[where Q="\<lambda>L. length L = length labs"]) simp_all

lemma expand_keeps:
  assumes "j < length labs" "labs ! j \<noteq> - 1"
  shows "expand c n k i st labs ! j = labs ! j"
proof -
  have "length (expand c n k i st labs) = length labs \<and> expand c n k i st labs ! j = labs ! j"
  proof (rule expand_invariant[where Q="\<lambda>L. length L = length labs \<and> L ! j = labs ! j"])
    show "length labs = length labs \<and> labs ! j = labs ! j" by simp
  next
    fix L i
    assume "length L = length labs \<and> L ! j = labs ! j" "i < length L" "L ! i = - 1"
    then show "length (L[i := int k]) = length labs \<and> L[i := int k] ! j = labs ! j"
      using assms by (auto simp: nth_list_update)
  qed
  then show ?thesis by simp
qed

lemma expand_only_label:
  assumes "j < length labs"
  shows "expand c n k i st labs ! j = labs ! j \<or> expand c n k i st labs ! j = int k"
proof -
  have "length (expand c n k i st labs) = length labs
      \<and> (expand c n k i st labs ! j = labs ! j \<or> expand c n k i st labs ! j = int k)"
  proof (rule expand_invariant[where Q="\<lambda>L. length L = length labs \<and> (L ! j = labs ! j \<or> L ! j = int k)"])
    show "length labs = length labs \<and> (labs ! j = labs ! j \<or> labs ! j = int k)" by simp
  next
    fix L i
    assume "length L = length labs \<and> (L ! j = labs ! j \<or> L ! j = int k)" "i < length L" "L ! i = - 1"
    then show "length (L[i := int k]) = length labs
        \<and> (L[i := int k] ! j = labs ! j \<or> L[i := int k] ! j = int k)"
      using assms by (auto simp: nth_list_update)
  qed
  then show ?thesis by simp
qed

lemma expand_start:
  assumes "i < length labs" "labs ! i = - 1"
  shows "expand c n k i st labs ! i = int k"
proof -
  let ?L = "labs[i := int k]"
  have t: "i < length labs \<and> labs ! i = - 1" using assms by simp
  have b: "i < length ?L" using assms by simp
  have c: "?L ! i \<noteq> - 1" using assms by simp
  have d: "?L ! i = int k" using assms by simp
  show ?thesis
  proof (cases "if c ! i then rev (filter (\<lambda>v. ?L ! v = - 1) (n ! i)) @ st else st")
    case Nil
    show ?thesis by (simp only: expand_labelled[OF t] Nil list.case d)
  next
    case (Cons x xs)
    have "expand c n k i st labs = expand c n k x xs ?L"
      by (simp only: expand_labelled[OF t] Cons list.case)
    with expand_keeps[OF b c, of c n k x xs] d show ?thesis by simp
  qed
qed

lemma dbscan_step_ok:
  assumes "labels_ok c n st" and "i < n"
  shows "labels_ok c n (dbscan_step c nb i st)"
proof -
  obtain labels k where st: "st = (labels, k)" by (cases st)
  from assms(1) st have len: "length labels = n"
    and rng: "\<And>j. j < n \<Longrightarrow> labels ! j = - 1 \<or> (0 \<le> labels ! j \<and> labels ! j < int k)"
    and cores: "\<And>l. l < k \<Longrightarrow> \<exists>j < n. c ! j \<and> labels ! j = int l"
    by (auto simp: labels_ok_def)
  show ?thesis
  proof (cases "labels ! i \<noteq> - 1 \<or> \<not> c ! i")
    case True
    then have "dbscan_step c nb i st = st" by (auto simp: dbscan_step_def st)
    with assms(1) show ?thesis by simp
  next
    case False
    let ?L = "expand c nb k i [] labels"
    from False have step: "dbscan_step c nb i st = (?L, k + 1)" by (auto simp: dbscan_step_def st)
    have l1: "length ?L = n" by (simp add: expand_length len)
    have l2: "?L ! j = - 1 \<or> (0 \<le> ?L ! j \<and> ?L ! j < int (k + 1))" if "j < n" for j
      using expand_only_label[of j labels c nb k i "[]"] rng[OF that] that len by auto
    have l3: "\<exists>j < n. c ! j \<and> ?L ! j = int l" if "l < k + 1" for l
    proof (cases "l < k")
      case True
      then obtain j where j: "j < n" "c ! j" "labels ! j = int l" using cores by blast
      then have "?L ! j = labels ! j" using expand_keeps[of j labels c nb k i "[]"] len by simp
      with j show ?thesis by auto
    next
      case False
      with that have "l = k" by simp
      moreover have "?L ! i = int k" using expand_start[of i labels c nb k "[]"] \<open>\<not> (labels ! i \<noteq> - 1 \<or> \<not> c ! i)\<close> assms(2) len by simp
      moreover have "c ! i" using \<open>\<not> (labels ! i \<noteq> - 1 \<or> \<not> c ! i)\<close> by simp
      ultimately show ?thesis using assms(2) by auto
    qed
    show ?thesis unfolding step labels_ok_def using l1 l2 l3 by simp
  qed
qed

lemma fold_dbscan_step_ok:
  assumes "labels_ok c n st" and "\<forall>i \<in> set is. i < n"
  shows "labels_ok c n (fold (dbscan_step c nb) is st)"
  using assms by (induction "is" arbitrary: st) (simp_all add: dbscan_step_ok)

lemma dbscan_inner_ok:
  "\<exists>k. labels_ok c n (dbscan_inner c nb (replicate n (- 1)), k)"
proof -
  have "labels_ok c n (replicate n (- 1), 0)" by (simp add: labels_ok_def)
  then have "labels_ok c n (fold (dbscan_step c nb) [0..<n] (replicate n (- 1), 0))"
    by (rule fold_dbscan_step_ok) simp
  then show ?thesis
    by (cases "fold (dbscan_step c nb) [0..<n] (replicate n (- 1), 0)") (auto simp: dbscan_inner_def)
qed

lemma filter_nth_upt: "map (\<lambda>j. X ! j) (filter (\<lambda>j. P (X ! j)) [0..<length X]) = filter P X"
proof -
  have "filter P (map (\<lambda>j. X ! j) [0..<length X]) = map (\<lambda>j. X ! j) (filter (\<lambda>j. P (X ! j)) [0..<length X])"
    by (simp add: filter_map o_def)
  then show ?thesis by (simp add: map_nth)
qed

lemma length_filter_nth: "length (filter (\<lambda>j. P (X ! j)) [0..<length X]) = length (filter P X)"
  using arg_cong[OF filter_nth_upt[of X P], of length] by simp

lemma dbscan_fit_labels:
  assumes "dbscan_fit 10 20 X = Inr labels"
  shows "length labels = length X"
    and "\<exists>k. (\<forall>j < length X. labels ! j = - 1 \<or> (0 \<le> labels ! j \<and> labels ! j < int k))
           \<and> (\<forall>l < k. \<exists>j < length X. core_point X (X ! j) \<and> labels ! j = int l)"
proof -
  let ?nb = "neighborhoods_of 10 X"
  let ?c = "map (\<lambda>nb. 20 \<le> length nb) ?nb"
  from assms have l: "labels = dbscan_inner ?c ?nb (replicate (length X) (- 1))"
    by (simp add: dbscan_fit_def Let_def split: if_splits)
  obtain k where ok: "labels_ok ?c (length X) (labels, k)"
    using dbscan_inner_ok[of ?c "length X" ?nb] l by blast
  have core: "?c ! j = core_point X (X ! j)" if "j < length X" for j
    using that by (simp add: neighborhoods_of_def core_point_def length_filter_nth)
  from ok show "length labels = length X" by (simp add: labels_ok_def)
  from ok core show "\<exists>k. (\<forall>j < length X. labels ! j = - 1 \<or> (0 \<le> labels ! j \<and> labels ! j < int k))
           \<and> (\<forall>l < k. \<exists>j < length X. core_point X (X ! j) \<and> labels ! j = int l)"
    unfolding labels_ok_def by (intro exI[of _ k]) (simp, metis)
qed

lemma distinct_concat_tagged:
  assumes "\<And>v. distinct (f v)" and "\<And>v p. p \<in> set (f v) \<Longrightarrow> fst p = v" and "distinct xs"
  shows "distinct (concat (map f xs))"
  using assms(3)
proof (induction xs)
  case Nil
  then show ?case by simp
next
  case (Cons a xs)
  have "set (f a) \<inter> set (concat (map f xs)) = {}"
  proof (rule ccontr)
    assume "set (f a) \<inter> set (concat (map f xs)) \<noteq> {}"
    then obtain p v where "p \<in> set (f a)" "v \<in> set xs" "p \<in> set (f v)" by auto
    then have "a = v" using assms(2) by blast
    with \<open>v \<in> set xs\<close> Cons.prems show False by simp
  qed
  with Cons assms(1) show ?case by simp
qed

lemma distinct_np_where: "distinct (np_where m)"
  unfolding np_where_def
  by (rule distinct_concat_tagged) (auto simp: distinct_map inj_on_def)

lemma non_ground_points_distinct:
  assumes "non_ground_points depth_map ground_mask = Inr pts"
  shows "distinct pts"
proof -
  from assms have sh: "shape ground_mask = shape depth_map"
    by (auto simp: non_ground_points_def mask_index_def shape_not Let_def split: if_splits)
  have "inj_on (\<lambda>(v, u). (real u, real v, depth_map ! v ! u)) A" for A
    by (auto simp: inj_on_def)
  with assms show ?thesis
    unfolding non_ground_points_eq[OF sh] by (auto simp: distinct_map distinct_np_where)
qed

lemma set_unique_labels: "set (unique_labels labels) = set labels - {- 1}"
  by (auto simp: unique_labels_def)

lemma cluster_points_mem:
  assumes "length labels = length pts"
  shows "p \<in> set (map fst (filter (\<lambda>(p, l'). l' = l) (zip pts labels)))
           \<longleftrightarrow> (\<exists>j < length pts. pts ! j = p \<and> labels ! j = l)"
  using assms by (auto simp: set_zip image_iff)

text \<open>
  C6, as the code has it. Every obstacle returned by \<open>segment_obstacles\<close> has a points list
  that is not empty, is made of points of the non-ground point cloud, and contains a core
  point, that is a point with at least 20 points of the cloud within distance 10 of it;
  and no point that DBSCAN labels as noise (-1) is in the points list of an obstacle.
\<close>

theorem segment_obstacles_clusters:
  assumes "segment_obstacles depth_map ground_mask = Inr obstacles" and "ob \<in> set obstacles"
  shows "\<exists>pts labels.
           non_ground_points depth_map ground_mask = Inr pts
           \<and> dbscan_fit 10 20 pts = Inr labels
           \<and> points ob \<noteq> []
           \<and> set (points ob) \<subseteq> set pts
           \<and> (\<exists>p \<in> set (points ob). core_point pts p)
           \<and> (\<forall>j < length pts. pts ! j \<in> set (points ob) \<longrightarrow> labels ! j \<noteq> - 1)"
proof -
  from assms(1) obtain pts labels where ng: "non_ground_points depth_map ground_mask = Inr pts"
    and fit: "dbscan_fit 10 20 pts = Inr labels"
    and obs: "obstacles = extract_obstacles pts labels"
    by (auto simp: segment_obstacles_def split: sum.splits)
  from assms(2) obs obtain l where l: "l \<in> set (unique_labels labels)"
    and cp: "points ob = map fst (filter (\<lambda>(p, l'). l' = l) (zip pts labels))"
    by (auto simp: extract_obstacles_def Let_def)
  from l have lin: "l \<in> set labels" and lne: "l \<noteq> - 1" by (simp_all add: set_unique_labels)
  have len: "length labels = length pts" by (rule dbscan_fit_labels(1)[OF fit])
  obtain k where rng: "\<And>j. j < length pts \<Longrightarrow> labels ! j = - 1 \<or> (0 \<le> labels ! j \<and> labels ! j < int k)"
    and cores: "\<And>l. l < k \<Longrightarrow> \<exists>j < length pts. core_point pts (pts ! j) \<and> labels ! j = int l"
    using dbscan_fit_labels(2)[OF fit] by blast
  note mem = cluster_points_mem[OF len, of _ l, folded cp]
  from lin obtain i where i: "i < length pts" "labels ! i = l"
    using len by (auto simp: in_set_conv_nth)
  with rng[OF i(1)] lne have "0 \<le> l" "l < int k" by auto
  then have "nat l < k" "int (nat l) = l" by simp_all
  with cores[of "nat l"] obtain j where j: "j < length pts" "core_point pts (pts ! j)" "labels ! j = l"
    by auto
  then have c1: "pts ! j \<in> set (points ob)" using mem by blast
  then have nonempty: "points ob \<noteq> []" by auto
  have sub: "set (points ob) \<subseteq> set pts" using mem by (auto simp: in_set_conv_nth)
  have dist: "distinct pts" by (rule non_ground_points_distinct[OF ng])
  have noise: "labels ! j' \<noteq> - 1" if "j' < length pts" "pts ! j' \<in> set (points ob)" for j'
  proof -
    from that(2) mem obtain j'' where "j'' < length pts" "pts ! j'' = pts ! j'" "labels ! j'' = l" by blast
    with dist that(1) have "j'' = j'" by (simp add: nth_eq_iff_index_eq)
    with \<open>labels ! j'' = l\<close> lne show ?thesis by simp
  qed
  from ng fit nonempty sub c1 j(2) noise show ?thesis by blast
qed

subsection \<open>The example frame\<close>

lemma filter_nth_enumerate:
  "filter (\<lambda>j. P (X ! j)) [0..<length X] = map fst (filter (\<lambda>(j, q). P q) (enumerate 0 X))"
proof -
  have z: "zip [0..<length X] X = map (\<lambda>j. (j, X ! j)) [0..<length X]"
    by (rule nth_equalityI) simp_all
  show ?thesis
    by (simp add: enumerate_eq_zip z filter_map o_def)
qed

lemma neighborhoods_of_enumerate:
  "neighborhoods_of eps X =
     map (\<lambda>p. map fst (filter (\<lambda>(j, q). in_radius eps p q) (enumerate 0 X))) X"
proof -
  have "neighborhoods_of eps X =
      map (\<lambda>i. (\<lambda>p. map fst (filter (\<lambda>(j, q). in_radius eps p q) (enumerate 0 X))) (X ! i))
        [0..<length X]"
    unfolding neighborhoods_of_def by (simp add: filter_nth_enumerate)
  also have "\<dots> = map (\<lambda>p. map fst (filter (\<lambda>(j, q). in_radius eps p q) (enumerate 0 X)))
      (map (\<lambda>i. X ! i) [0..<length X])"
    by (simp only: map_map o_def)
  finally show ?thesis by (simp only: map_nth)
qed

lemma example_cloud: "non_ground_points example_depth_map example_ground_mask = Inr example_points"
  by code_simp

lemma example_neighbours: "neighborhoods_of 10 example_points = example_neighborhoods"
  unfolding neighborhoods_of_enumerate by code_simp

lemma example_search:
  "dbscan_inner (map (\<lambda>nb. 20 \<le> length nb) example_neighborhoods) example_neighborhoods
     (replicate 39 (- 1)) = example_labels"
  by code_simp

lemma example_fit: "dbscan_fit 10 20 example_points = Inr example_labels"
proof -
  have ne: "example_points \<noteq> []" by (simp add: example_points_def)
  have len: "length example_points = 39" by (simp add: example_points_def)
  show ?thesis
    by (simp only: dbscan_fit_def ne if_False Let_def example_neighbours len example_search)
qed

lemma example_extract:
  "extract_obstacles example_points example_labels =
     [\<lparr>centroid = (27 / 5, 9 / 20, 0), points = example_cluster0\<rparr>,
      \<lparr>centroid = (594 / 19, 9 / 19, 0), points = example_cluster1\<rparr>]"
  by code_simp

lemma example_segment:
  "segment_obstacles example_depth_map example_ground_mask =
     Inr [\<lparr>centroid = (27 / 5, 9 / 20, 0), points = example_cluster0\<rparr>,
          \<lparr>centroid = (594 / 19, 9 / 19, 0), points = example_cluster1\<rparr>]"
  by (simp only: segment_obstacles_def example_cloud example_fit example_extract sum.case)

text \<open>
  The claim as the specification words it, at least 20 points in every obstacle, fails on
  the example frame: the pixel in column 18 is a border point of both blocks and is labelled
  with the block that is searched first, so the second obstacle is left with 19 points.
\<close>

theorem segment_obstacles_clusters_counterexample:
  "map_sum id (map (length \<circ> points)) (segment_obstacles example_depth_map example_ground_mask)
     = Inr [20, 19]"
  by (simp only: example_segment) (simp add: example_cluster0_def example_cluster1_def)

text \<open>The second obstacle of the example frame.\<close>

theorem segment_obstacles_clusters_witness:
  "segment_obstacles example_depth_map example_ground_mask =
     Inr [\<lparr>centroid = (27 / 5, 9 / 20, 0), points = example_cluster0\<rparr>,
          \<lparr>centroid = (594 / 19, 9 / 19, 0), points = example_cluster1\<rparr>]
   \<and> (\<exists>pts labels.
           non_ground_points example_depth_map example_ground_mask = Inr pts
           \<and> dbscan_fit 10 20 pts = Inr labels
           \<and> example_cluster1 \<noteq> []
           \<and> set example_cluster1 \<subseteq> set pts
           \<and> (\<exists>p \<in> set example_cluster1. core_point pts p)
           \<and> (\<forall>j < length pts. pts ! j \<in> set example_cluster1 \<longrightarrow> labels ! j \<noteq> - 1))"
proof -
  have h2: "\<lparr>centroid = (594 / 19, 9 / 19, 0), points = example_cluster1\<rparr>
      \<in> set [\<lparr>centroid = (27 / 5, 9 / 20, 0), points = example_cluster0\<rparr>,
              \<lparr>centroid = (594 / 19, 9 / 19, 0), points = example_cluster1\<rparr>]" by simp
  have "\<exists>pts labels.
           non_ground_points example_depth_map example_ground_mask = Inr pts
           \<and> dbscan_fit 10 20 pts = Inr labels
           \<and> example_cluster1 \<noteq> []
           \<and> set example_cluster1 \<subseteq> set pts
           \<and> (\<exists>p \<in> set example_cluster1. core_point pts p)
           \<and> (\<forall>j < length pts. pts ! j \<in> set example_cluster1 \<longrightarrow> labels ! j \<noteq> - 1)"
    using segment_obstacles_clusters[OF example_segment h2] by (simp only: obstacle.select_convs)
  with example_segment show ?thesis by (rule conjI)
qed

end
